theory Spec2Isabelle
  imports
    Main
    "HOL-Library.Char_ord"
    "HOL-Library.List_Lexorder"
    "HOL-Library.Product_Lexorder"
    "HOL-Library.Multiset"
begin

section \<open>Python values shared by the components\<close>

text \<open>
  The exceptions the modelled code can raise: a missing dictionary key, a list index out
  of range, and a modulus by zero.
\<close>

datatype py_error = KeyError | IndexError | ZeroDivisionError

text \<open>
  A Python \<open>dict\<close> keeps its keys in insertion order, and several functions below depend
  on that order (\<open>list(score.keys())\<close>, \<open>self.standings.items()\<close>). A dictionary is
  therefore an association list; \<open>d[k] = v\<close> overwrites the value of a key that is present,
  in place, and appends a new key at the end.
\<close>

type_synonym ('k, 'v) dict = "('k \<times> 'v) list"

fun dict_set :: "'k \<Rightarrow> 'v \<Rightarrow> ('k, 'v) dict \<Rightarrow> ('k, 'v) dict" where
  "dict_set k v [] = [(k, v)]"
| "dict_set k v ((k', v') # d) =
     (if k' = k then (k, v) # d else (k', v') # dict_set k v d)"

text \<open>The display \<open>{k1: v1, k2: v2, ...}\<close>: the items are stored from left to right.\<close>

definition dict_of :: "('k \<times> 'v) list \<Rightarrow> ('k, 'v) dict" where
  "dict_of items = fold (\<lambda>(k, v) d. dict_set k v d) items []"

definition dict_keys :: "('k, 'v) dict \<Rightarrow> 'k list" where
  "dict_keys d = map fst d"

definition dict_values :: "('k, 'v) dict \<Rightarrow> 'v list" where
  "dict_values d = map snd d"

text \<open>\<open>d[k]\<close> as an expression raises \<open>KeyError\<close> when the key is absent.\<close>

definition dict_get :: "('k, 'v) dict \<Rightarrow> 'k \<Rightarrow> py_error + 'v" where
  "dict_get d k = (case map_of d k of None \<Rightarrow> Inl KeyError | Some v \<Rightarrow> Inr v)"

text \<open>
  Log messages and console output are left out of the model, except in
  \<open>update_from_result\<close>, whose logging the properties below speak of.
\<close>

text \<open>The values of the heterogeneous \<open>details\<close> dictionaries.\<close>

datatype py_value = PyInt int | PyStr string

section \<open>Referee: game logic (game\_logic.py)\<close>

definition get_parity :: "int \<Rightarrow> string" where
  "get_parity number = (if number mod 2 = 1 then ''odd'' else ''even'')"

type_synonym match_outcome =
  "string option \<times> (string, int) dict \<times> (string, py_value) dict"

text \<open>
  \<open>calculate_match_result\<close> normalises both choices with \<open>str.lower()\<close>, a method of
  Python's own string type and not code of this repository: it lowers every cased
  character of Unicode, not only the letters A to Z. The model takes it as its first
  argument \<open>str_lower\<close> and fixes nothing about it, so that what is proved of
  \<open>calculate_match_result\<close> holds whatever \<open>str.lower()\<close> returns.
\<close>

definition calculate_match_result ::
  "(string \<Rightarrow> string) \<Rightarrow> string \<Rightarrow> string \<Rightarrow> string \<Rightarrow> string \<Rightarrow> int \<Rightarrow> match_outcome" where
  "calculate_match_result str_lower player_A_id player_A_choice player_B_id player_B_choice
       drawn_number =
     (let drawn_parity = get_parity drawn_number;
          choice_A = str_lower player_A_choice;
          choice_B = str_lower player_B_choice;
          (winner, score, outcome) =
            (if choice_A = choice_B then
               (None, dict_of [(player_A_id, 1), (player_B_id, 1)], ''DRAW'')
             else if choice_A = drawn_parity then
               (Some player_A_id, dict_of [(player_A_id, 3), (player_B_id, 0)],
                player_A_id @ '' WINS'')
             else
               (Some player_B_id, dict_of [(player_A_id, 0), (player_B_id, 3)],
                player_B_id @ '' WINS''));
          details = dict_of
            [(''drawn_number'', PyInt drawn_number),
             (''drawn_parity'', PyStr drawn_parity),
             (''player_A_choice'', PyStr choice_A),
             (''player_B_choice'', PyStr choice_B),
             (''outcome'', PyStr outcome)]
      in (winner, score, details))"

definition handle_player_timeout ::
  "string \<Rightarrow> string \<Rightarrow> bool \<Rightarrow> bool \<Rightarrow> match_outcome" where
  "handle_player_timeout player_A_id player_B_id player_A_responded player_B_responded =
     (if \<not> player_A_responded \<and> \<not> player_B_responded then
        (None, dict_of [(player_A_id, 0), (player_B_id, 0)],
         dict_of [(''outcome'', PyStr ''DOUBLE_FORFEIT'')])
      else if \<not> player_A_responded then
        (Some player_B_id, dict_of [(player_A_id, 0), (player_B_id, 3)],
         dict_of [(''outcome'', PyStr (player_A_id @ ''_FORFEIT''))])
      else
        (Some player_A_id, dict_of [(player_A_id, 3), (player_B_id, 0)],
         dict_of [(''outcome'', PyStr (player_B_id @ ''_FORFEIT''))]))"

text \<open>The three components of a match outcome.\<close>

definition winner_of :: "match_outcome \<Rightarrow> string option" where
  "winner_of r = fst r"

definition score_of :: "match_outcome \<Rightarrow> (string, int) dict" where
  "score_of r = fst (snd r)"

definition details_of :: "match_outcome \<Rightarrow> (string, py_value) dict" where
  "details_of r = snd (snd r)"

section \<open>League manager: data models (models.py)\<close>

text \<open>
  \<open>str(n)\<close> of an integer, as the f-strings of the code format it, and the format
  \<open>{n:02d}\<close>: at least two characters, zero-padded after the sign.
\<close>

definition digit_char :: "nat \<Rightarrow> char" where
  "digit_char d = ''0123456789'' ! d"

fun str_nat :: "nat \<Rightarrow> string" where
  "str_nat n = (if n < 10 then [digit_char n] else str_nat (n div 10) @ [digit_char (n mod 10)])"

declare str_nat.simps [simp del]

definition str :: "int \<Rightarrow> string" where
  "str i = (if i < 0 then ''-'' @ str_nat (nat (- i)) else str_nat (nat i))"

definition format_02d :: "int \<Rightarrow> string" where
  "format_02d i =
     (let sign = (if i < 0 then ''-'' else []);
          digits = str_nat (nat \<bar>i\<bar>)
      in sign @ replicate (2 - length sign - length digits) CHR ''0'' @ digits)"

text \<open>\<open>xs[i]\<close> for an index that is not negative raises \<open>IndexError\<close> out of range.\<close>

definition list_get :: "'a list \<Rightarrow> nat \<Rightarrow> py_error + 'a" where
  "list_get xs i = (if i < length xs then Inr (xs ! i) else Inl IndexError)"

text \<open>A point in time (\<open>datetime\<close>), as seconds.\<close>

type_synonym datetime = nat

text \<open>
  The classes of models.py. Where two classes have a field of the same name, the later
  record prefixes it.
\<close>

record registration_request =
  req_display_name :: string
  version :: string
  game_types :: "string list"
  req_contact_endpoint :: string
  max_concurrent_matches :: int

record registration_response =
  status :: string
  resp_participant_id :: string
  resp_auth_token :: string

record participant =
  participant_id :: string
  part_display_name :: string
  contact_endpoint :: string
  auth_token :: string
  registered_at :: datetime

record match =
  match_id :: string
  game_type :: string
  player_A_id :: string
  player_B_id :: string
  referee_id :: string

record match_result =
  round_id :: string
  result_match_id :: string
  winner :: "string option"
  score :: "(string, int) dict"
  details :: "(string, py_value) dict option"

text \<open>
  \<open>StandingsData\<close>, the row dictionary that \<open>get_sorted_standings\<close> builds from it (the
  same fields and \<open>player_id\<close>) and \<open>PlayerStanding\<close> (the row's fields and \<open>rank\<close>) are
  one record and its two extensions, so that \<open>points\<close> and \<open>wins\<close> read all three.
\<close>

record standings_data =
  played :: int
  wins :: int
  draws :: int
  losses :: int
  points :: int
  display_name :: string

record standing_row = standings_data +
  player_id :: string

record player_standing = standing_row +
  rank :: int

text \<open>\<open>StandingsData(display_name=...)\<close>: every counter takes its default 0.\<close>

definition StandingsData :: "string \<Rightarrow> standings_data" where
  "StandingsData name =
     \<lparr>played = 0, wins = 0, draws = 0, losses = 0, points = 0, display_name = name\<rparr>"

section \<open>League manager: tournament scheduler (scheduler.py)\<close>

record scheduler =
  player_ids :: "string list"
  referee_ids :: "string list"
  schedule :: "match list list"

text \<open>
  The constructor sorts both id lists. Python orders strings by code point, which on
  their bytes is the lexicographic order of lists of characters.
\<close>

definition TournamentScheduler :: "string list \<Rightarrow> string list \<Rightarrow> scheduler" where
  "TournamentScheduler pids rids =
     \<lparr>player_ids = sort pids, referee_ids = sort rids, schedule = []\<rparr>"

definition pairings :: "(nat \<times> nat) list list" where
  "pairings = [[(0, 1), (2, 3)], [(0, 2), (1, 3)], [(0, 3), (1, 2)]]"

text \<open>
  The body of the inner loop of \<open>generate_schedule\<close>: the referee index is computed first
  (a modulus by the number of referees), then the match is built from the two player
  indices, the first player read before the second.
\<close>

definition make_match :: "scheduler \<Rightarrow> nat \<Rightarrow> nat \<Rightarrow> nat \<times> nat \<Rightarrow> py_error + match" where
  "make_match s round_num match_idx pr =
     (let p1_idx = fst pr; p2_idx = snd pr; match_num = match_idx + 1 in
      if length (referee_ids s) = 0 then Inl ZeroDivisionError
      else
        let referee_idx = match_idx mod length (referee_ids s) in
        case list_get (referee_ids s) referee_idx of
          Inl e \<Rightarrow> Inl e
        | Inr rid \<Rightarrow>
            (case list_get (player_ids s) p1_idx of
               Inl e \<Rightarrow> Inl e
             | Inr a \<Rightarrow>
                 (case list_get (player_ids s) p2_idx of
                    Inl e \<Rightarrow> Inl e
                  | Inr b \<Rightarrow>
                      Inr \<lparr>match_id = ''R'' @ str (int round_num) @ ''M'' @ str (int match_num),
                           game_type = ''even_odd'',
                           player_A_id = a,
                           player_B_id = b,
                           referee_id = rid\<rparr>)))"

text \<open>The inner loop over the enumerated pairings of one round.\<close>

fun round_loop ::
  "scheduler \<Rightarrow> nat \<Rightarrow> nat \<Rightarrow> (nat \<times> nat) list \<Rightarrow> match list \<Rightarrow> py_error + match list" where
  "round_loop s round_num match_idx [] round_matches = Inr round_matches"
| "round_loop s round_num match_idx (pr # rest) round_matches =
     (case make_match s round_num match_idx pr of
        Inl e \<Rightarrow> Inl e
      | Inr m \<Rightarrow> round_loop s round_num (match_idx + 1) rest (round_matches @ [m]))"

text \<open>
  The outer loop over the enumerated rounds. It appends every finished round to
  \<open>self.schedule\<close>; an exception leaves the rounds appended so far.
\<close>

fun schedule_loop ::
  "scheduler \<Rightarrow> nat \<Rightarrow> (nat \<times> nat) list list \<Rightarrow> py_error option \<times> scheduler" where
  "schedule_loop s round_idx [] = (None, s)"
| "schedule_loop s round_idx (round_pairings # rest) =
     (case round_loop s (round_idx + 1) 0 round_pairings [] of
        Inl e \<Rightarrow> (Some e, s)
      | Inr round_matches \<Rightarrow>
          schedule_loop (s\<lparr>schedule := schedule s @ [round_matches]\<rparr>) (round_idx + 1) rest)"

text \<open>\<open>generate_schedule\<close> returns \<open>self.schedule\<close> or raises; the scheduler is returned too.\<close>

definition generate_schedule :: "scheduler \<Rightarrow> (py_error + match list list) \<times> scheduler" where
  "generate_schedule s =
     (case schedule_loop (s\<lparr>schedule := []\<rparr>) 0 pairings of
        (Some e, s') \<Rightarrow> (Inl e, s')
      | (None, s') \<Rightarrow> (Inr (schedule s'), s'))"

text \<open>\<open>d[k] += 1\<close>: the read raises \<open>KeyError\<close> for an absent key.\<close>

definition dict_incr :: "('k, int) dict \<Rightarrow> 'k \<Rightarrow> py_error + ('k, int) dict" where
  "dict_incr d k =
     (case dict_get d k of Inl e \<Rightarrow> Inl e | Inr v \<Rightarrow> Inr (dict_set k (v + 1) d))"

text \<open>The first pair of nested loops of \<open>validate_schedule\<close>: counting matches per player.\<close>

fun count_round :: "match list \<Rightarrow> (string, int) dict \<Rightarrow> py_error + (string, int) dict" where
  "count_round [] c = Inr c"
| "count_round (m # ms) c =
     (case dict_incr c (player_A_id m) of
        Inl e \<Rightarrow> Inl e
      | Inr c1 \<Rightarrow>
          (case dict_incr c1 (player_B_id m) of
             Inl e \<Rightarrow> Inl e
           | Inr c2 \<Rightarrow> count_round ms c2))"

fun count_rounds :: "match list list \<Rightarrow> (string, int) dict \<Rightarrow> py_error + (string, int) dict" where
  "count_rounds [] c = Inr c"
| "count_rounds (r # rs) c =
     (case count_round r c of Inl e \<Rightarrow> Inl e | Inr c' \<Rightarrow> count_rounds rs c')"

text \<open>
  The second pair of nested loops: the pairing of a match is the sorted pair of its
  players; \<open>None\<close> is the early \<open>return False\<close> at a pairing seen before.
\<close>

fun pairings_round :: "match list \<Rightarrow> string list set \<Rightarrow> string list set option" where
  "pairings_round [] pairings_set = Some pairings_set"
| "pairings_round (m # ms) pairings_set =
     (let pairing = sort [player_A_id m, player_B_id m] in
      if pairing \<in> pairings_set then None
      else pairings_round ms (insert pairing pairings_set))"

fun pairings_rounds :: "match list list \<Rightarrow> string list set \<Rightarrow> string list set option" where
  "pairings_rounds [] pairings_set = Some pairings_set"
| "pairings_rounds (r # rs) pairings_set =
     (case pairings_round r pairings_set of
        None \<Rightarrow> None
      | Some pairings_set' \<Rightarrow> pairings_rounds rs pairings_set')"

definition validate_schedule :: "scheduler \<Rightarrow> py_error + bool" where
  "validate_schedule s =
     (case count_rounds (schedule s) (dict_of (map (\<lambda>pid. (pid, 0)) (player_ids s))) of
        Inl e \<Rightarrow> Inl e
      | Inr player_match_count \<Rightarrow>
          if \<not> list_all (\<lambda>count. count = 3) (dict_values player_match_count) then Inr False
          else (case pairings_rounds (schedule s) {} of
                  None \<Rightarrow> Inr False
                | Some pairings_set \<Rightarrow> Inr True))"

section \<open>League manager: standings (standings.py)\<close>

record standings_manager =
  standings :: "(string, standings_data) dict"

definition StandingsManager :: standings_manager where
  "StandingsManager = \<lparr>standings = []\<rparr>"

definition initialize_player :: "standings_manager \<Rightarrow> string \<Rightarrow> string \<Rightarrow> standings_manager" where
  "initialize_player mgr pid name =
     mgr\<lparr>standings := dict_set pid (StandingsData name) (standings mgr)\<rparr>"

text \<open>
  A run of statements \<open>self.standings[k].field += n\<close>, each given as the key and the
  change of the entry. The entry is changed in place, so it keeps its position. A missing
  key raises \<open>KeyError\<close> at its statement and the statements before it have taken effect.
\<close>

fun run_updates ::
  "(string \<times> (standings_data \<Rightarrow> standings_data)) list \<Rightarrow> (string, standings_data) dict \<Rightarrow>
   py_error option \<times> (string, standings_data) dict" where
  "run_updates [] d = (None, d)"
| "run_updates ((k, f) # rest) d =
     (case map_of d k of
        None \<Rightarrow> (Some KeyError, d)
      | Some entry \<Rightarrow> run_updates rest (dict_set k (f entry) d))"

text \<open>The severity of the one message a call of \<open>update_from_result\<close> logs.\<close>

datatype log_level = LogInfo | LogError

text \<open>
  \<open>update_from_result\<close> returns nothing: its result is the exception raised (if any), the
  messages logged, and the manager after the call.
\<close>

definition update_from_result ::
  "standings_manager \<Rightarrow> match_result \<Rightarrow> py_error option \<times> log_level list \<times> standings_manager" where
  "update_from_result mgr result =
     (case dict_keys (score result) of
        [player_a, player_b] \<Rightarrow>
          (case run_updates
                  [(player_a, \<lambda>e. e\<lparr>played := played e + 1\<rparr>),
                   (player_b, \<lambda>e. e\<lparr>played := played e + 1\<rparr>)] (standings mgr) of
             (Some err, d) \<Rightarrow> (Some err, [], mgr\<lparr>standings := d\<rparr>)
           | (None, d) \<Rightarrow>
               if winner result = None \<or> winner result = Some [] then
                 (case run_updates
                         [(player_a, \<lambda>e. e\<lparr>draws := draws e + 1\<rparr>),
                          (player_a, \<lambda>e. e\<lparr>points := points e + 1\<rparr>),
                          (player_b, \<lambda>e. e\<lparr>draws := draws e + 1\<rparr>),
                          (player_b, \<lambda>e. e\<lparr>points := points e + 1\<rparr>)] d of
                    (Some err, d') \<Rightarrow> (Some err, [], mgr\<lparr>standings := d'\<rparr>)
                  | (None, d') \<Rightarrow> (None, [LogInfo], mgr\<lparr>standings := d'\<rparr>))
               else if winner result = Some player_a then
                 (case run_updates
                         [(player_a, \<lambda>e. e\<lparr>wins := wins e + 1\<rparr>),
                          (player_a, \<lambda>e. e\<lparr>points := points e + 3\<rparr>),
                          (player_b, \<lambda>e. e\<lparr>losses := losses e + 1\<rparr>)] d of
                    (Some err, d') \<Rightarrow> (Some err, [], mgr\<lparr>standings := d'\<rparr>)
                  | (None, d') \<Rightarrow> (None, [LogInfo], mgr\<lparr>standings := d'\<rparr>))
               else if winner result = Some player_b then
                 (case run_updates
                         [(player_b, \<lambda>e. e\<lparr>wins := wins e + 1\<rparr>),
                          (player_b, \<lambda>e. e\<lparr>points := points e + 3\<rparr>),
                          (player_a, \<lambda>e. e\<lparr>losses := losses e + 1\<rparr>)] d of
                    (Some err, d') \<Rightarrow> (Some err, [], mgr\<lparr>standings := d'\<rparr>)
                  | (None, d') \<Rightarrow> (None, [LogInfo], mgr\<lparr>standings := d'\<rparr>))
               else (None, [LogError], mgr\<lparr>standings := d\<rparr>))
      | _ \<Rightarrow> (None, [LogError], mgr))"

text \<open>
  \<open>list.sort(key=..., reverse=True)\<close>: the list is reversed, sorted stably by ascending
  key and reversed again, so entries of equal key keep their order.
\<close>

definition sort_reverse :: "('a \<Rightarrow> 'k::linorder) \<Rightarrow> 'a list \<Rightarrow> 'a list" where
  "sort_reverse key xs = rev (sort_key key (rev xs))"

text \<open>The sort key is the tuple \<open>(points, wins)\<close>; tuples compare lexicographically.\<close>

definition get_sorted_standings :: "standings_manager \<Rightarrow> player_standing list" where
  "get_sorted_standings mgr =
     (let standings_list =
            map (\<lambda>(pid, data).
                   \<lparr>played = played data, wins = wins data, draws = draws data,
                    losses = losses data, points = points data,
                    display_name = display_name data, player_id = pid\<rparr>)
                (standings mgr);
          sorted_list = sort_reverse (\<lambda>x. (points x, wins x)) standings_list
      in map (\<lambda>(rank_no, standing).
                \<lparr>played = played standing, wins = wins standing, draws = draws standing,
                 losses = losses standing, points = points standing,
                 display_name = display_name standing, player_id = player_id standing,
                 rank = int rank_no\<rparr>)
             (enumerate 1 sorted_list))"

section \<open>League manager: registration (registration.py)\<close>

record registration_manager =
  referees :: "(string, participant) dict"
  players :: "(string, participant) dict"
  referee_count :: int
  player_count :: int

definition RegistrationManager :: registration_manager where
  "RegistrationManager = \<lparr>referees = [], players = [], referee_count = 0, player_count = 0\<rparr>"

text \<open>
  A registration reads two values from its environment, which are arguments here: the
  token that \<open>secrets.token_hex(32)\<close> draws and the time that \<open>datetime.now()\<close> returns.
  The result is the response (\<open>None\<close> for a rejection) and the manager after the call.
\<close>

definition register_referee ::
  "registration_manager \<Rightarrow> registration_request \<Rightarrow> string \<Rightarrow> datetime \<Rightarrow>
   registration_response option \<times> registration_manager" where
  "register_referee mgr request token now =
     (if referee_count mgr \<ge> 2 then (None, mgr)
      else
        let count = referee_count mgr + 1;
            rid = ''REF'' @ format_02d count;
            p = \<lparr>participant_id = rid,
                 part_display_name = req_display_name request,
                 contact_endpoint = req_contact_endpoint request,
                 auth_token = token,
                 registered_at = now\<rparr>
        in (Some \<lparr>status = ''ACCEPTED'', resp_participant_id = rid, resp_auth_token = token\<rparr>,
            mgr\<lparr>referee_count := count, referees := dict_set rid p (referees mgr)\<rparr>))"

definition register_player ::
  "registration_manager \<Rightarrow> registration_request \<Rightarrow> string \<Rightarrow> datetime \<Rightarrow>
   registration_response option \<times> registration_manager" where
  "register_player mgr request token now =
     (if player_count mgr \<ge> 4 then (None, mgr)
      else
        let count = player_count mgr + 1;
            pid = ''P'' @ format_02d count;
            p = \<lparr>participant_id = pid,
                 part_display_name = req_display_name request,
                 contact_endpoint = req_contact_endpoint request,
                 auth_token = token,
                 registered_at = now\<rparr>
        in (Some \<lparr>status = ''ACCEPTED'', resp_participant_id = pid, resp_auth_token = token\<rparr>,
            mgr\<lparr>player_count := count, players := dict_set pid p (players mgr)\<rparr>))"

text \<open>
  A sequence of registration requests, as the server receives them, each with the values
  it reads from its environment, and the manager such a sequence leads to.
\<close>

datatype registration_call =
  RefereeCall registration_request string datetime
| PlayerCall registration_request string datetime

fun register :: "registration_manager \<Rightarrow> registration_call \<Rightarrow>
   registration_response option \<times> registration_manager" where
  "register mgr (RefereeCall request token now) = register_referee mgr request token now"
| "register mgr (PlayerCall request token now) = register_player mgr request token now"

fun register_all :: "registration_manager \<Rightarrow> registration_call list \<Rightarrow> registration_manager" where
  "register_all mgr [] = mgr"
| "register_all mgr (c # cs) = register_all (snd (register mgr c)) cs"

fun is_referee_call :: "registration_call \<Rightarrow> bool" where
  "is_referee_call (RefereeCall request token now) = True"
| "is_referee_call (PlayerCall request token now) = False"

section \<open>Vocabulary of the properties\<close>

text \<open>The three parts of what a call of \<open>update_from_result\<close> produces.\<close>

definition raised ::
  "py_error option \<times> log_level list \<times> standings_manager \<Rightarrow> py_error option" where
  "raised out = fst out"

definition logged ::
  "py_error option \<times> log_level list \<times> standings_manager \<Rightarrow> log_level list" where
  "logged out = fst (snd out)"

definition manager_after ::
  "py_error option \<times> log_level list \<times> standings_manager \<Rightarrow> standings_manager" where
  "manager_after out = snd (snd out)"

text \<open>The ledger entry a ranked standing was made from, and the sort key of an entry.\<close>

definition entry_of :: "player_standing \<Rightarrow> string \<times> standings_data" where
  "entry_of s =
     (player_id s,
      \<lparr>played = played s, wins = wins s, draws = draws s, losses = losses s,
       points = points s, display_name = display_name s\<rparr>)"

definition standings_key :: "string \<times> standings_data \<Rightarrow> int \<times> int" where
  "standings_key e = (points (snd e), wins (snd e))"

text \<open>
  The lowering function of the examples. On a string of ASCII characters \<open>str.lower()\<close>
  replaces the letters A to Z by a to z and keeps every other character; the examples
  below are such strings. (On other strings \<open>str.lower()\<close> does more: it lowers the
  cased characters beyond ASCII too.)
\<close>

definition ascii_lower_char :: "char \<Rightarrow> char" where
  "ascii_lower_char c =
     (if CHR ''A'' \<le> c \<and> c \<le> CHR ''Z'' then char_of (of_char c + (32 :: nat)) else c)"

definition ascii_lower :: "string \<Rightarrow> string" where
  "ascii_lower s = map ascii_lower_char s"

text \<open>
  Example inputs. The ledger after two rounds in which P01 beat P02 and P03, P03 beat P04
  and P02 beat P04, its players entered in the order P04, P02, P01, P03; a ledger of two
  players before any match; and a match result with a given winner and score.
\<close>

definition example_ledger :: standings_manager where
  "example_ledger =
     \<lparr>standings =
        [(''P04'', \<lparr>played = 2, wins = 0, draws = 0, losses = 2, points = 0,
                    display_name = ''Dan''\<rparr>),
         (''P02'', \<lparr>played = 2, wins = 1, draws = 0, losses = 1, points = 3,
                    display_name = ''Bob''\<rparr>),
         (''P01'', \<lparr>played = 2, wins = 2, draws = 0, losses = 0, points = 6,
                    display_name = ''Ann''\<rparr>),
         (''P03'', \<lparr>played = 2, wins = 1, draws = 0, losses = 1, points = 3,
                    display_name = ''Cy''\<rparr>)]\<rparr>"

definition fresh_ledger :: standings_manager where
  "fresh_ledger =
     initialize_player (initialize_player StandingsManager ''P01'' ''Ann'') ''P02'' ''Bob''"

definition example_result :: "string option \<Rightarrow> (string, int) dict \<Rightarrow> match_result" where
  "example_result w sc =
     \<lparr>round_id = ''R1'', result_match_id = ''R1M1'', winner = w, score = sc, details = None\<rparr>"

text \<open>
  The player calls of a sequence of registration requests, and an example: the six
  registrations of a full roster, players and referees interleaved.
\<close>

fun is_player_call :: "registration_call \<Rightarrow> bool" where
  "is_player_call (RefereeCall request token now) = False"
| "is_player_call (PlayerCall request token now) = True"

definition example_request :: "string \<Rightarrow> string \<Rightarrow> registration_request" where
  "example_request name endpoint =
     \<lparr>req_display_name = name, version = ''1.0.0'', game_types = [''even_odd''],
      req_contact_endpoint = endpoint, max_concurrent_matches = 1\<rparr>"

definition full_roster :: "registration_call list" where
  "full_roster =
     [PlayerCall (example_request ''Ann'' ''http://localhost:8101/MCP'') ''t1'' 1,
      RefereeCall (example_request ''Ref A'' ''http://localhost:8001/MCP'') ''t2'' 2,
      PlayerCall (example_request ''Bob'' ''http://localhost:8102/MCP'') ''t3'' 3,
      PlayerCall (example_request ''Cy'' ''http://localhost:8103/MCP'') ''t4'' 4,
      RefereeCall (example_request ''Ref B'' ''http://localhost:8002/MCP'') ''t5'' 5,
      PlayerCall (example_request ''Dan'' ''http://localhost:8104/MCP'') ''t6'' 6]"

text \<open>
  Of a schedule: the unordered pair of the players of a match, the matches a player takes
  part in, and the number of times a player is named as player A or as player B (which
  is the number of the player's matches when no match names one player twice). Last, the
  schedule that the pairing table yields for the sorted players \<open>a\<close>, \<open>b\<close>, \<open>c\<close>,
  \<open>d\<close> and the referees \<open>r1\<close> and \<open>r2\<close> of the first and the second match of a round.
\<close>

definition pair_of :: "match \<Rightarrow> string set" where
  "pair_of m = {player_A_id m, player_B_id m}"

definition matches_of :: "string \<Rightarrow> match list list \<Rightarrow> match list" where
  "matches_of p sched = filter (\<lambda>m. player_A_id m = p \<or> player_B_id m = p) (concat sched)"

definition appearances :: "string \<Rightarrow> match list list \<Rightarrow> nat" where
  "appearances p sched =
     length (filter (\<lambda>m. player_A_id m = p) (concat sched)) +
     length (filter (\<lambda>m. player_B_id m = p) (concat sched))"

definition round_robin ::
  "string \<Rightarrow> string \<Rightarrow> string \<Rightarrow> string \<Rightarrow> string \<Rightarrow> string \<Rightarrow> match list list" where
  "round_robin a b c d r1 r2 =
     [[\<lparr>match_id = ''R1M1'', game_type = ''even_odd'', player_A_id = a, player_B_id = b,
        referee_id = r1\<rparr>,
       \<lparr>match_id = ''R1M2'', game_type = ''even_odd'', player_A_id = c, player_B_id = d,
        referee_id = r2\<rparr>],
      [\<lparr>match_id = ''R2M1'', game_type = ''even_odd'', player_A_id = a, player_B_id = c,
        referee_id = r1\<rparr>,
       \<lparr>match_id = ''R2M2'', game_type = ''even_odd'', player_A_id = b, player_B_id = d,
        referee_id = r2\<rparr>],
      [\<lparr>match_id = ''R3M1'', game_type = ''even_odd'', player_A_id = a, player_B_id = d,
        referee_id = r1\<rparr>,
       \<lparr>match_id = ''R3M2'', game_type = ''even_odd'', player_A_id = b, player_B_id = c,
        referee_id = r2\<rparr>]]"

text \<open>
  Example schedulers, all for the players P01 to P04 and the referees REF01 and REF02:
  one whose schedule plays P01 against P02 and P03 against P04 in each of the three
  rounds, one whose schedule lacks the last match, one whose last match names P05, who
  is not a player of the scheduler, and one with matches of a player against itself.
\<close>

definition example_match :: "string \<Rightarrow> string \<Rightarrow> string \<Rightarrow> string \<Rightarrow> match" where
  "example_match mid a b r =
     \<lparr>match_id = mid, game_type = ''even_odd'', player_A_id = a, player_B_id = b,
      referee_id = r\<rparr>"

definition example_scheduler :: scheduler where
  "example_scheduler =
     TournamentScheduler [''P03'', ''P01'', ''P04'', ''P02''] [''REF02'', ''REF01'']"




definition self_pairing_scheduler :: scheduler where
  "self_pairing_scheduler = example_scheduler
     \<lparr>schedule :=
        [[example_match ''R1M1'' ''P01'' ''P01'' ''REF01'',
          example_match ''R1M2'' ''P01'' ''P02'' ''REF02''],
         [example_match ''R2M1'' ''P02'' ''P02'' ''REF01'',
          example_match ''R2M2'' ''P03'' ''P03'' ''REF02''],
         [example_match ''R3M1'' ''P03'' ''P04'' ''REF01'',
          example_match ''R3M2'' ''P04'' ''P04'' ''REF02'']]\<rparr>"

section \<open>Properties of the game logic\<close>

lemma dict_of_pair: "A \<noteq> B \<Longrightarrow> dict_of [(A, x), (B, y)] = [(A, x), (B, y)]"
  by (simp add: dict_of_def)

lemma ascii_lower_examples:
  "ascii_lower ''odd'' = ''odd''" "ascii_lower ''ODD'' = ''odd''"
  "ascii_lower ''Odd'' = ''odd''" "ascii_lower ''even'' = ''even''"
  "ascii_lower ''EVEN'' = ''even''" "ascii_lower ''Even'' = ''even''"
  by code_simp+



text \<open>
  Choices whose lowered forms differ and of which the first is not the parity fall into
  the last branch: B is returned as the winner, also when the lowered choice of B is not
  the parity either (the choices are then not both among \<open>odd\<close> and \<open>even\<close>).
\<close>

lemma calculate_match_result_no_match:
  assumes "str_lower cA \<noteq> str_lower cB" and "str_lower cA \<noteq> get_parity n"
  shows "winner_of (calculate_match_result str_lower A cA B cB n) = Some B"
  using assms by (simp add: calculate_match_result_def winner_of_def Let_def)

text \<open>
  Claim C2. For distinct player ids \<open>A\<close> and \<open>B\<close>: when neither player responded,
  \<open>handle_player_timeout\<close> returns no winner and the score \<open>{A: 0, B: 0}\<close>; when exactly
  one responded, that player is the winner with score 3 and the other scores 0.
\<close>

theorem handle_player_timeout_rules:
  assumes "A \<noteq> B"
  shows "(\<not> a_responded \<and> \<not> b_responded \<longrightarrow>
            winner_of (handle_player_timeout A B a_responded b_responded) = None \<and>
            score_of (handle_player_timeout A B a_responded b_responded) = [(A, 0), (B, 0)]) \<and>
         (a_responded \<and> \<not> b_responded \<longrightarrow>
            winner_of (handle_player_timeout A B a_responded b_responded) = Some A \<and>
            score_of (handle_player_timeout A B a_responded b_responded) = [(A, 3), (B, 0)]) \<and>
         (\<not> a_responded \<and> b_responded \<longrightarrow>
            winner_of (handle_player_timeout A B a_responded b_responded) = Some B \<and>
            score_of (handle_player_timeout A B a_responded b_responded) = [(A, 0), (B, 3)])"
  using assms
  by (auto simp: handle_player_timeout_def winner_of_def score_of_def dict_of_pair)

theorem handle_player_timeout_rules_witness:
  "''P01'' \<noteq> ''P02'' \<and>
   winner_of (handle_player_timeout ''P01'' ''P02'' False False) = None \<and>
   score_of (handle_player_timeout ''P01'' ''P02'' False False) = [(''P01'', 0), (''P02'', 0)] \<and>
   winner_of (handle_player_timeout ''P01'' ''P02'' True False) = Some ''P01'' \<and>
   score_of (handle_player_timeout ''P01'' ''P02'' True False) = [(''P01'', 3), (''P02'', 0)] \<and>
   winner_of (handle_player_timeout ''P01'' ''P02'' False True) = Some ''P02'' \<and>
   score_of (handle_player_timeout ''P01'' ''P02'' False True) = [(''P01'', 0), (''P02'', 3)]"
  using handle_player_timeout_rules [of "''P01''" "''P02''" False False]
        handle_player_timeout_rules [of "''P01''" "''P02''" True False]
        handle_player_timeout_rules [of "''P01''" "''P02''" False True]
  by simp

text \<open>
  Claim C4, as stated: every score map of a match outcome has two keys and its values sum
  to 6, 2 or 0. A win is scored 3 to 0: with choices \<open>odd\<close> and \<open>even\<close> and the drawn
  number 4 the score is \<open>{P01: 0, P02: 3}\<close>, whose sum 3 is none of the three.
\<close>

theorem score_map_sum_counterexample:
  "score_of (calculate_match_result ascii_lower ''P01'' ''odd'' ''P02'' ''even'' 4) =
     [(''P01'', 0), (''P02'', 3)] \<and>
   sum_list (dict_values (score_of (calculate_match_result ascii_lower ''P01'' ''odd'' ''P02'' ''even'' 4)))
     \<notin> {6, 2, 0}"
  by (simp add: calculate_match_result_def score_of_def dict_of_def dict_values_def
      get_parity_def ascii_lower_examples Let_def)

text \<open>
  Claim C4, amended. For distinct player ids, the score map returned by
  \<open>calculate_match_result\<close> (whatever \<open>str.lower()\<close> makes of the choices) and the one
  returned by \<open>handle_player_timeout\<close> each have exactly two keys, and their two values
  sum to 3 (a win, 3 to 0), 2 (a draw, 1 each) or 0 (a double forfeit).
\<close>

theorem score_map_two_keys_sum:
  assumes "A \<noteq> B"
  shows "length (dict_keys (score_of (calculate_match_result str_lower A cA B cB n))) = 2 \<and>
         distinct (dict_keys (score_of (calculate_match_result str_lower A cA B cB n))) \<and>
         sum_list (dict_values (score_of (calculate_match_result str_lower A cA B cB n))) \<in> {3, 2, 0} \<and>
         length (dict_keys (score_of (handle_player_timeout A B a_responded b_responded))) = 2 \<and>
         distinct (dict_keys (score_of (handle_player_timeout A B a_responded b_responded))) \<and>
         sum_list (dict_values (score_of (handle_player_timeout A B a_responded b_responded)))
           \<in> {3, 2, 0}"
  using assms
  by (auto simp: calculate_match_result_def handle_player_timeout_def score_of_def dict_of_pair
      dict_keys_def dict_values_def Let_def)

theorem score_map_two_keys_sum_witness:
  "''P01'' \<noteq> ''P02'' \<and>
   length (dict_keys (score_of (calculate_match_result ascii_lower ''P01'' ''odd'' ''P02'' ''even'' 4))) = 2 \<and>
   sum_list (dict_values (score_of (calculate_match_result ascii_lower ''P01'' ''odd'' ''P02'' ''even'' 4)))
     \<in> {3, 2, 0} \<and>
   length (dict_keys (score_of (handle_player_timeout ''P01'' ''P02'' False False))) = 2 \<and>
   sum_list (dict_values (score_of (handle_player_timeout ''P01'' ''P02'' False False)))
     \<in> {3, 2, 0}"
  using score_map_two_keys_sum
          [where str_lower = ascii_lower and A = "''P01''" and B = "''P02''"
             and cA = "''odd''" and cB = "''even''" and n = 4
             and a_responded = False and b_responded = False]
  by simp

text \<open>
  The two keys need two ids: a score map built for one id twice has a single key, whose
  value is the one stored last.
\<close>

lemma score_map_same_id_one_key:
  "score_of (calculate_match_result ascii_lower ''P01'' ''odd'' ''P01'' ''odd'' 3) = [(''P01'', 1)]"
  "score_of (handle_player_timeout ''P01'' ''P01'' False False) = [(''P01'', 0)]"
  by code_simp+

section \<open>Properties of the standings ledger\<close>

subsection \<open>Dictionary updates\<close>

lemma map_of_dict_set: "map_of (dict_set k v d) = (map_of d)(k \<mapsto> v)"
  by (induction d) (auto simp: fun_eq_iff)

lemma dict_keys_dict_set:
  "dict_keys (dict_set k v d) =
     (if k \<in> set (dict_keys d) then dict_keys d else dict_keys d @ [k])"
  by (induction d) (force simp: dict_keys_def)+

lemma map_of_None_keys: "map_of d k = None \<longleftrightarrow> k \<notin> set (dict_keys d)"
  by (simp add: dict_keys_def map_of_eq_None_iff)

lemma run_updates_played_missing:
  assumes "a \<notin> set (dict_keys d) \<or> b \<notin> set (dict_keys d)"
  shows "\<exists>d'. run_updates [(a, f), (b, g)] d = (Some KeyError, d')"
proof (cases "map_of d a")
  case None
  then show ?thesis by simp
next
  case (Some e)
  then have "a \<in> set (dict_keys d)"
    using map_of_None_keys [of d a] by auto
  with assms have "map_of (dict_set a (f e) d) b = None"
    by (auto simp: map_of_dict_set map_of_None_keys)
  with Some show ?thesis by simp
qed

lemma update_from_result_unknown_player:
  assumes "dict_keys (score result) = [a, b]"
      and "a \<notin> set (dict_keys (standings mgr)) \<or> b \<notin> set (dict_keys (standings mgr))"
  shows "raised (update_from_result mgr result) = Some KeyError \<and>
         logged (update_from_result mgr result) = []"
proof -
  from run_updates_played_missing [OF assms(2)]
  obtain d' where
    "run_updates [(a, \<lambda>e. e\<lparr>played := played e + 1\<rparr>), (b, \<lambda>e. e\<lparr>played := played e + 1\<rparr>)]
       (standings mgr) = (Some KeyError, d')"
    by blast
  with assms(1) show ?thesis
    by (simp add: update_from_result_def raised_def logged_def del: run_updates.simps)
qed

subsection \<open>Results that name an unknown player\<close>

text \<open>
  Claim C10. \<open>update_from_result\<close> relies on both keys of a two-key score map naming
  players that \<open>initialize_player\<close> has entered: when the score map has exactly two keys
  and one of them is not a key of the standings map, the call raises \<open>KeyError\<close> at the
  increment of \<open>played\<close> and logs nothing.
\<close>

theorem update_from_result_unknown_player_raises:
  assumes "length (dict_keys (score result)) = 2"
      and "\<exists>k \<in> set (dict_keys (score result)). k \<notin> set (dict_keys (standings mgr))"
  shows "raised (update_from_result mgr result) = Some KeyError \<and>
         logged (update_from_result mgr result) = []"
proof -
  from assms(1) obtain a b where ab: "dict_keys (score result) = [a, b]"
    by (cases "dict_keys (score result)" rule: list.exhaust)
       (auto simp: length_Suc_conv)
  with assms(2) have "a \<notin> set (dict_keys (standings mgr)) \<or> b \<notin> set (dict_keys (standings mgr))"
    by auto
  with ab show ?thesis by (rule update_from_result_unknown_player)
qed

theorem update_from_result_unknown_player_raises_witness:
  "length (dict_keys (score (example_result (Some ''P01'') [(''P01'', 3), (''P09'', 0)]))) = 2 \<and>
   (\<exists>k \<in> set (dict_keys (score (example_result (Some ''P01'') [(''P01'', 3), (''P09'', 0)]))).
      k \<notin> set (dict_keys (standings fresh_ledger))) \<and>
   raised (update_from_result fresh_ledger
     (example_result (Some ''P01'') [(''P01'', 3), (''P09'', 0)])) = Some KeyError \<and>
   logged (update_from_result fresh_ledger
     (example_result (Some ''P01'') [(''P01'', 3), (''P09'', 0)])) = []"
proof -
  have h1: "length (dict_keys (score (example_result (Some ''P01'') [(''P01'', 3), (''P09'', 0)]))) = 2"
    by (simp add: example_result_def dict_keys_def)
  have h2: "\<exists>k \<in> set (dict_keys (score (example_result (Some ''P01'') [(''P01'', 3), (''P09'', 0)]))).
      k \<notin> set (dict_keys (standings fresh_ledger))"
    by (simp add: example_result_def dict_keys_def fresh_ledger_def initialize_player_def
      StandingsManager_def)
  from update_from_result_unknown_player_raises [OF h1 h2] h1 h2 show ?thesis by blast
qed

subsection \<open>Results that are rejected\<close>

text \<open>A score map that does not have two keys: an error is logged, nothing changes.\<close>

lemma update_from_result_bad_score_skipped:
  assumes "length (dict_keys (score result)) \<noteq> 2"
  shows "update_from_result mgr result = (None, [LogError], mgr)"
  using assms
  by (auto simp: update_from_result_def split: list.splits)

text \<open>
  Claim C5 says that a result whose winner is neither key of its two-key score map leaves
  the standings unchanged. The code logs the error only after it has incremented
  \<open>played\<close> for both players: on a ledger of P01 and P02 with no match played, the result
  with score \<open>{P01: 3, P02: 0}\<close> and winner P03 leaves both with \<open>played = 1\<close> and no
  win, draw or loss.
\<close>

theorem update_from_result_unknown_winner_counts_played:
  "update_from_result fresh_ledger (example_result (Some ''P03'') [(''P01'', 3), (''P02'', 0)]) =
     (None, [LogError],
      \<lparr>standings =
         [(''P01'', \<lparr>played = 1, wins = 0, draws = 0, losses = 0, points = 0, display_name = ''Ann''\<rparr>),
          (''P02'', \<lparr>played = 1, wins = 0, draws = 0, losses = 0, points = 0, display_name = ''Bob''\<rparr>)]\<rparr>) \<and>
   manager_after (update_from_result fresh_ledger
      (example_result (Some ''P03'') [(''P01'', 3), (''P02'', 0)])) \<noteq> fresh_ledger"
  by (simp add: update_from_result_def fresh_ledger_def example_result_def initialize_player_def
      StandingsManager_def StandingsData_def dict_keys_def manager_after_def)

subsection \<open>The ranked view\<close>

lemma map_insort_key:
  "map g (insort_key (\<lambda>y. k (g y)) x xs) = insort_key k (g x) (map g xs)"
  by (induction xs) auto

lemma map_sort_key: "map g (sort_key (\<lambda>y. k (g y)) xs) = sort_key k (map g xs)"
  by (induction xs) (auto simp: map_insort_key)

lemma map_sort_reverse:
  "map g (sort_reverse (\<lambda>y. k (g y)) xs) = sort_reverse k (map g xs)"
  by (simp add: sort_reverse_def rev_map [symmetric] map_sort_key)

lemma length_sort_reverse: "length (sort_reverse k xs) = length xs"
  by (simp add: sort_reverse_def)

lemma mset_sort_reverse: "mset (sort_reverse k xs) = mset xs"
  by (simp add: sort_reverse_def)

lemma sort_reverse_stable:
  "filter (\<lambda>y. k y = c) (sort_reverse k xs) = filter (\<lambda>y. k y = c) xs"
  by (simp add: sort_reverse_def rev_filter [symmetric] sort_key_stable)

lemma sort_reverse_descending:
  assumes "i < j" and "j < length (sort_reverse k xs)"
  shows "k (sort_reverse k xs ! j) \<le> k (sort_reverse k xs ! i)"
proof -
  let ?ys = "sort_reverse k xs"
  have "sorted (rev (map k ?ys))"
    by (simp add: sort_reverse_def rev_map [symmetric])
  then have "map k ?ys ! j \<le> map k ?ys ! i"
    using assms by (intro sorted_rev_nth_mono) auto
  with assms show ?thesis by simp
qed

lemma entries_get_sorted_standings:
  "map entry_of (get_sorted_standings mgr) = sort_reverse standings_key (standings mgr)"
proof -
  let ?row = "\<lambda>(pid, data).
       \<lparr>played = played data, wins = wins data, draws = draws data,
        losses = losses data, points = points data,
        display_name = display_name data, player_id = pid\<rparr>"
  let ?entry = "\<lambda>(r::standing_row). (player_id r,
       \<lparr>played = played r, wins = wins r, draws = draws r, losses = losses r,
        points = points r, display_name = display_name r\<rparr>)"
  have key: "(\<lambda>(x::standing_row). (points x, wins x)) = (\<lambda>x. standings_key (?entry x))"
    by (simp add: fun_eq_iff standings_key_def)
  have inverse: "map ?entry (map ?row es) = es" for es
    by (induction es) auto
  have "map entry_of (get_sorted_standings mgr) =
        map ?entry (map snd (enumerate 1
          (sort_reverse (\<lambda>x. (points x, wins x)) (map ?row (standings mgr)))))"
    unfolding get_sorted_standings_def Let_def map_map
    by (rule map_cong) (auto simp: entry_of_def)
  also have "\<dots> =
        map ?entry (sort_reverse (\<lambda>x. (points x, wins x)) (map ?row (standings mgr)))"
    by (simp only: map_snd_enumerate)
  also have "\<dots> = sort_reverse standings_key (map ?entry (map ?row (standings mgr)))"
    unfolding key by (rule map_sort_reverse)
  finally show ?thesis by (simp only: inverse)
qed

lemma points_entry_of [simp]: "points (snd (entry_of s)) = points s"
  and wins_entry_of [simp]: "wins (snd (entry_of s)) = wins s"
  by (simp_all add: entry_of_def)

lemma rank_get_sorted_standings:
  "map rank (get_sorted_standings mgr) = map int [1 ..< Suc (length (standings mgr))]"
proof -
  have "map rank (get_sorted_standings mgr) =
        map int (map fst (enumerate 1
          (sort_reverse (\<lambda>x. (points x, wins x))
             (map (\<lambda>(pid, data).
                \<lparr>played = played data, wins = wins data, draws = draws data,
                 losses = losses data, points = points data,
                 display_name = display_name data, player_id = pid\<rparr>) (standings mgr)))))"
    unfolding get_sorted_standings_def Let_def map_map
    by (rule map_cong) auto
  then show ?thesis
    by (simp add: length_sort_reverse)
qed

text \<open>
  Claim C7. For every standings state, \<open>get_sorted_standings\<close> returns the entries of the
  ledger (each once), sorted by points descending and then wins descending; entries equal
  on both keys keep their ledger insertion order; the ranks are 1 to N in list order, so
  every entry has its own rank and ties leave no gap.
\<close>

theorem get_sorted_standings_ranked:
  fixes mgr :: standings_manager and out :: "player_standing list"
  defines "out \<equiv> get_sorted_standings mgr"
  shows "length out = length (standings mgr) \<and>
         mset (map entry_of out) = mset (standings mgr) \<and>
         (\<forall>i j. i < j \<and> j < length out \<longrightarrow>
            points (out ! j) < points (out ! i) \<or>
            points (out ! j) = points (out ! i) \<and> wins (out ! j) \<le> wins (out ! i)) \<and>
         (\<forall>p w. filter (\<lambda>e. points (snd e) = p \<and> wins (snd e) = w) (map entry_of out) =
                filter (\<lambda>e. points (snd e) = p \<and> wins (snd e) = w) (standings mgr)) \<and>
         map rank out = map int [1 ..< Suc (length out)]"
proof -
  let ?es = "sort_reverse standings_key (standings mgr)"
  have es: "map entry_of out = ?es"
    unfolding out_def by (rule entries_get_sorted_standings)
  have len: "length out = length (standings mgr)"
    using arg_cong [OF es, of length] by (simp add: length_sort_reverse)
  have perm: "mset (map entry_of out) = mset (standings mgr)"
    unfolding es by (rule mset_sort_reverse)
  have desc: "points (out ! j) < points (out ! i) \<or>
              points (out ! j) = points (out ! i) \<and> wins (out ! j) \<le> wins (out ! i)"
    if "i < j" and "j < length out" for i j
  proof -
    from that len have "standings_key (?es ! j) \<le> standings_key (?es ! i)"
      by (intro sort_reverse_descending) (simp_all add: length_sort_reverse)
    moreover have "?es ! j = entry_of (out ! j)" "?es ! i = entry_of (out ! i)"
      using that by (simp_all add: es [symmetric])
    ultimately show ?thesis
      by (auto simp: standings_key_def)
  qed
  have stable: "filter (\<lambda>e. points (snd e) = p \<and> wins (snd e) = w) (map entry_of out) =
                filter (\<lambda>e. points (snd e) = p \<and> wins (snd e) = w) (standings mgr)" for p w
    using sort_reverse_stable [of standings_key "(p, w)" "standings mgr"]
    by (simp add: es standings_key_def)
  have ranks: "map rank out = map int [1 ..< Suc (length out)]"
    unfolding len unfolding out_def by (rule rank_get_sorted_standings)
  from len perm desc stable ranks show ?thesis by blast
qed

lemma example_ledger_sorted:
  "get_sorted_standings example_ledger =
     [\<lparr>played = 2, wins = 2, draws = 0, losses = 0, points = 6, display_name = ''Ann'',
       player_id = ''P01'', rank = 1\<rparr>,
      \<lparr>played = 2, wins = 1, draws = 0, losses = 1, points = 3, display_name = ''Bob'',
       player_id = ''P02'', rank = 2\<rparr>,
      \<lparr>played = 2, wins = 1, draws = 0, losses = 1, points = 3, display_name = ''Cy'',
       player_id = ''P03'', rank = 3\<rparr>,
      \<lparr>played = 2, wins = 0, draws = 0, losses = 2, points = 0, display_name = ''Dan'',
       player_id = ''P04'', rank = 4\<rparr>]"
  by code_simp

theorem get_sorted_standings_ranked_witness:
  "(1::nat) < 2 \<and> 2 < length (get_sorted_standings example_ledger) \<and>
   points (get_sorted_standings example_ledger ! 2) = points (get_sorted_standings example_ledger ! 1) \<and>
   wins (get_sorted_standings example_ledger ! 2) \<le> wins (get_sorted_standings example_ledger ! 1) \<and>
   map fst (filter (\<lambda>e. points (snd e) = 3 \<and> wins (snd e) = 1) (standings example_ledger)) =
     [''P02'', ''P03''] \<and>
   map player_id (get_sorted_standings example_ledger) = [''P01'', ''P02'', ''P03'', ''P04''] \<and>
   map rank (get_sorted_standings example_ledger) = [1, 2, 3, 4]"
  using get_sorted_standings_ranked [of example_ledger]
  by (simp add: example_ledger_sorted) (simp add: example_ledger_def)

section \<open>Properties of the registration gate\<close>

lemma dict_set_new: "k \<notin> set (dict_keys d) \<Longrightarrow> dict_set k v d = d @ [(k, v)]"
  by (induction d) (auto simp: dict_keys_def)

lemma format_02d_small:
  "format_02d 1 = ''01''" "format_02d 2 = ''02''" "format_02d 3 = ''03''" "format_02d 4 = ''04''"
  by code_simp+

lemma register_all_snoc:
  "register_all mgr (cs @ [c]) = snd (register (register_all mgr cs) c)"
  by (induction cs arbitrary: mgr) simp_all

lemma register_referee_rejected:
  "2 \<le> referee_count mgr \<Longrightarrow> register_referee mgr request token now = (None, mgr)"
  by (simp add: register_referee_def)

lemma register_player_rejected:
  "4 \<le> player_count mgr \<Longrightarrow> register_player mgr request token now = (None, mgr)"
  by (simp add: register_player_def)

lemma register_referee_accepted:
  assumes "referee_count mgr = int k" and "k < 2"
      and "dict_keys (referees mgr) = take k [''REF01'', ''REF02'']"
  shows "fst (register_referee mgr request token now) =
           Some \<lparr>status = ''ACCEPTED'', resp_participant_id = [''REF01'', ''REF02''] ! k,
                 resp_auth_token = token\<rparr> \<and>
         referee_count (snd (register_referee mgr request token now)) = int (Suc k) \<and>
         dict_keys (referees (snd (register_referee mgr request token now))) =
           take (Suc k) [''REF01'', ''REF02''] \<and>
         player_count (snd (register_referee mgr request token now)) = player_count mgr \<and>
         players (snd (register_referee mgr request token now)) = players mgr"
proof -
  from assms(2) consider "k = 0" | "k = 1" by linarith
  then show ?thesis
  proof cases
    case 1
    with assms show ?thesis
      by (simp add: register_referee_def Let_def format_02d_small dict_keys_dict_set)
  next
    case 2
    with assms show ?thesis
      by (simp add: register_referee_def Let_def format_02d_small dict_keys_dict_set)
  qed
qed

lemma register_player_accepted:
  assumes "player_count mgr = int k" and "k < 4"
      and "dict_keys (players mgr) = take k [''P01'', ''P02'', ''P03'', ''P04'']"
  shows "fst (register_player mgr request token now) =
           Some \<lparr>status = ''ACCEPTED'',
                 resp_participant_id = [''P01'', ''P02'', ''P03'', ''P04''] ! k,
                 resp_auth_token = token\<rparr> \<and>
         player_count (snd (register_player mgr request token now)) = int (Suc k) \<and>
         dict_keys (players (snd (register_player mgr request token now))) =
           take (Suc k) [''P01'', ''P02'', ''P03'', ''P04''] \<and>
         referee_count (snd (register_player mgr request token now)) = referee_count mgr \<and>
         referees (snd (register_player mgr request token now)) = referees mgr"
proof -
  from assms(2) consider "k = 0" | "k = 1" | "k = 2" | "k = 3" by linarith
  then show ?thesis
  proof cases
    case 1
    with assms show ?thesis
      by (simp add: register_player_def Let_def format_02d_small dict_keys_dict_set)
  next
    case 2
    with assms show ?thesis
      by (simp add: register_player_def Let_def format_02d_small dict_keys_dict_set)
  next
    case 3
    with assms show ?thesis
      by (simp add: register_player_def Let_def format_02d_small dict_keys_dict_set
          numeral_2_eq_2)
  next
    case 4
    with assms show ?thesis
      by (simp add: register_player_def Let_def format_02d_small dict_keys_dict_set
          numeral_3_eq_3)
  qed
qed


lemma register_all_invariant:
  "referee_count (register_all RegistrationManager cs) =
     min 2 (int (length (filter is_referee_call cs))) \<and>
   player_count (register_all RegistrationManager cs) =
     min 4 (int (length (filter is_player_call cs))) \<and>
   dict_keys (referees (register_all RegistrationManager cs)) =
     take (length (filter is_referee_call cs)) [''REF01'', ''REF02''] \<and>
   dict_keys (players (register_all RegistrationManager cs)) =
     take (length (filter is_player_call cs)) [''P01'', ''P02'', ''P03'', ''P04'']"
proof (induction cs rule: rev_induct)
  case Nil
  show ?case by (simp add: RegistrationManager_def dict_keys_def)
next
  case (snoc c cs)
  let ?m = "register_all RegistrationManager cs"
  let ?r = "length (filter is_referee_call cs)"
  let ?p = "length (filter is_player_call cs)"
  show ?case
  proof (cases c)
    case (RefereeCall request token now)
    show ?thesis
    proof (cases "?r < 2")
      case True
      with snoc.IH have "referee_count ?m = int ?r"
        and "dict_keys (referees ?m) = take ?r [''REF01'', ''REF02'']"
        by simp_all
      from register_referee_accepted [OF this(1) True this(2), of request token now]
        snoc.IH True RefereeCall
      show ?thesis by (simp add: register_all_snoc)
    next
      case False
      with snoc.IH have "2 \<le> referee_count ?m" by simp
      then have "register_referee ?m request token now = (None, ?m)"
        by (rule register_referee_rejected)
      with snoc.IH False RefereeCall show ?thesis
        by (simp add: register_all_snoc)
    qed
  next
    case (PlayerCall request token now)
    show ?thesis
    proof (cases "?p < 4")
      case True
      with snoc.IH have "player_count ?m = int ?p"
        and "dict_keys (players ?m) = take ?p [''P01'', ''P02'', ''P03'', ''P04'']"
        by simp_all
      from register_player_accepted [OF this(1) True this(2), of request token now]
        snoc.IH True PlayerCall
      show ?thesis by (simp add: register_all_snoc)
    next
      case False
      with snoc.IH have "4 \<le> player_count ?m" by simp
      then have "register_player ?m request token now = (None, ?m)"
        by (rule register_player_rejected)
      with snoc.IH False PlayerCall show ?thesis
        by (simp add: register_all_snoc)
    qed
  qed
qed

text \<open>
  Claim C6. After any sequence of registration requests: a referee registration that
  follows two or more referee attempts (so the third attempt) and a player registration
  that follows four or more player attempts (so the fifth) return no response and leave
  the whole manager, counters and participant maps, as it was; a registration before that
  limit is accepted with the id REF01 or REF02, or P01 to P04, numbered by the attempts
  before it, and the stored maps hold exactly these ids in registration order.
\<close>

theorem registration_limits_and_ids:
  fixes cs :: "registration_call list"
    and mgr :: registration_manager and referee_calls player_calls :: nat
  defines "mgr \<equiv> register_all RegistrationManager cs"
      and "referee_calls \<equiv> length (filter is_referee_call cs)"
      and "player_calls \<equiv> length (filter is_player_call cs)"
  shows "(2 \<le> referee_calls \<longrightarrow> register_referee mgr request token now = (None, mgr)) \<and>
         (referee_calls < 2 \<longrightarrow>
            fst (register_referee mgr request token now) =
              Some \<lparr>status = ''ACCEPTED'',
                    resp_participant_id = [''REF01'', ''REF02''] ! referee_calls,
                    resp_auth_token = token\<rparr>) \<and>
         (4 \<le> player_calls \<longrightarrow> register_player mgr request token now = (None, mgr)) \<and>
         (player_calls < 4 \<longrightarrow>
            fst (register_player mgr request token now) =
              Some \<lparr>status = ''ACCEPTED'',
                    resp_participant_id = [''P01'', ''P02'', ''P03'', ''P04''] ! player_calls,
                    resp_auth_token = token\<rparr>) \<and>
         dict_keys (referees mgr) = take referee_calls [''REF01'', ''REF02''] \<and>
         dict_keys (players mgr) = take player_calls [''P01'', ''P02'', ''P03'', ''P04''] \<and>
         referee_count mgr = min 2 (int referee_calls) \<and>
         player_count mgr = min 4 (int player_calls)"
proof -
  note inv = register_all_invariant [of cs, folded mgr_def referee_calls_def player_calls_def]
  have r_full: "register_referee mgr request token now = (None, mgr)" if "2 \<le> referee_calls"
    using that inv by (intro register_referee_rejected) simp
  have r_free: "fst (register_referee mgr request token now) =
      Some \<lparr>status = ''ACCEPTED'', resp_participant_id = [''REF01'', ''REF02''] ! referee_calls,
            resp_auth_token = token\<rparr>" if "referee_calls < 2"
    using register_referee_accepted [of mgr referee_calls request token now] that inv by simp
  have p_full: "register_player mgr request token now = (None, mgr)" if "4 \<le> player_calls"
    using that inv by (intro register_player_rejected) simp
  have p_free: "fst (register_player mgr request token now) =
      Some \<lparr>status = ''ACCEPTED'',
            resp_participant_id = [''P01'', ''P02'', ''P03'', ''P04''] ! player_calls,
            resp_auth_token = token\<rparr>" if "player_calls < 4"
    using register_player_accepted [of mgr player_calls request token now] that inv by simp
  from r_full r_free p_full p_free inv show ?thesis by blast
qed

lemma full_roster_counts:
  "length (filter is_referee_call full_roster) = 2"
  "length (filter is_player_call full_roster) = 4"
  "length (filter is_referee_call (take 3 full_roster)) = 1"
  "length (filter is_player_call (take 3 full_roster)) = 2"
  by (simp_all add: full_roster_def)

theorem registration_limits_and_ids_witness:
  "register_referee (register_all RegistrationManager full_roster)
     (example_request ''Ref C'' ''http://localhost:8003/MCP'') ''t7'' 7 =
     (None, register_all RegistrationManager full_roster) \<and>
   register_player (register_all RegistrationManager full_roster)
     (example_request ''Eve'' ''http://localhost:8105/MCP'') ''t8'' 8 =
     (None, register_all RegistrationManager full_roster) \<and>
   fst (register_referee (register_all RegistrationManager (take 3 full_roster))
     (example_request ''Ref B'' ''http://localhost:8002/MCP'') ''t5'' 5) =
     Some \<lparr>status = ''ACCEPTED'', resp_participant_id = ''REF02'', resp_auth_token = ''t5''\<rparr> \<and>
   fst (register_player (register_all RegistrationManager (take 3 full_roster))
     (example_request ''Cy'' ''http://localhost:8103/MCP'') ''t4'' 4) =
     Some \<lparr>status = ''ACCEPTED'', resp_participant_id = ''P03'', resp_auth_token = ''t4''\<rparr> \<and>
   dict_keys (referees (register_all RegistrationManager full_roster)) = [''REF01'', ''REF02''] \<and>
   dict_keys (players (register_all RegistrationManager full_roster)) =
     [''P01'', ''P02'', ''P03'', ''P04'']"
  using registration_limits_and_ids [of full_roster
          "example_request ''Ref C'' ''http://localhost:8003/MCP''" "''t7''" 7]
        registration_limits_and_ids [of full_roster
          "example_request ''Eve'' ''http://localhost:8105/MCP''" "''t8''" 8]
        registration_limits_and_ids [of "take 3 full_roster"
          "example_request ''Ref B'' ''http://localhost:8002/MCP''" "''t5''" 5]
        registration_limits_and_ids [of "take 3 full_roster"
          "example_request ''Cy'' ''http://localhost:8103/MCP''" "''t4''" 4]
  by (simp add: full_roster_counts numeral_2_eq_2)

section \<open>Properties of the scheduler\<close>

subsection \<open>The generated schedule\<close>

lemma str_small: "str 1 = ''1''" "str 2 = ''2''" "str 3 = ''3''"
  by code_simp+

lemma make_match_four:
  assumes "player_ids s = [a, b, c, d]" and "referee_ids s \<noteq> []"
    and "i < 4" and "j < 4"
  shows "make_match s round_num match_idx (i, j) =
     Inr \<lparr>match_id = ''R'' @ str (int round_num) @ ''M'' @ str (1 + int match_idx),
          game_type = ''even_odd'',
          player_A_id = [a, b, c, d] ! i, player_B_id = [a, b, c, d] ! j,
          referee_id = referee_ids s ! (match_idx mod length (referee_ids s))\<rparr>"
  using assms by (simp add: make_match_def list_get_def Let_def)

lemma generate_schedule_four:
  assumes "player_ids s = [a, b, c, d]" and "referee_ids s \<noteq> []"
  shows "generate_schedule s =
     (Inr (round_robin a b c d (referee_ids s ! 0)
             (referee_ids s ! (1 mod length (referee_ids s)))),
      s\<lparr>schedule := round_robin a b c d (referee_ids s ! 0)
             (referee_ids s ! (1 mod length (referee_ids s)))\<rparr>)"
proof -
  let ?s = "s\<lparr>schedule := []\<rparr>"
  have ids: "player_ids (t\<lparr>schedule := x\<rparr>) = player_ids t"
    "referee_ids (t\<lparr>schedule := x\<rparr>) = referee_ids t" for t :: scheduler and x
    by simp_all
  have mk: "make_match (s\<lparr>schedule := x\<rparr>) round_num match_idx (i, j) =
     Inr \<lparr>match_id = ''R'' @ str (int round_num) @ ''M'' @ str (1 + int match_idx),
          game_type = ''even_odd'',
          player_A_id = [a, b, c, d] ! i, player_B_id = [a, b, c, d] ! j,
          referee_id = referee_ids s ! (match_idx mod length (referee_ids s))\<rparr>"
    if "i < 4" "j < 4" for x round_num match_idx i j
    using make_match_four [of "s\<lparr>schedule := x\<rparr>" a b c d i j round_num match_idx] assms that
    by simp
  show ?thesis
    by (simp add: generate_schedule_def pairings_def mk round_robin_def str_small)
qed


lemma length_four: "length xs = 4 \<Longrightarrow> \<exists>a b c d. xs = [a, b, c, d]"
  by (auto simp: numeral_eq_Suc length_Suc_conv)

lemma sort_four:
  fixes ps :: "string list"
  assumes "length ps = 4" and "distinct ps"
  obtains a b c d where "sort ps = [a, b, c, d]" and "distinct [a, b, c, d]"
    and "set ps = {a, b, c, d}"
proof -
  have "length (sort ps) = 4" using assms(1) by simp
  then obtain a b c d where eq: "sort ps = [a, b, c, d]"
    using length_four [of "sort ps"] by blast
  have "distinct (sort ps)" using assms(2) by simp
  then have d: "distinct [a, b, c, d]" by (simp only: eq)
  have "set (sort ps) = set ps" by simp
  then have "set ps = {a, b, c, d}" by (simp add: eq)
  with eq d show ?thesis by (rule that)
qed

lemma two_subsets_of_four:
  assumes "distinct [a, b, c, d]"
  shows "{S. S \<subseteq> {a, b, c, d} \<and> card S = 2} =
         {{a, b}, {c, d}, {a, c}, {b, d}, {a, d}, {b, c}}"
proof (intro equalityI subsetI)
  fix S assume "S \<in> {S. S \<subseteq> {a, b, c, d} \<and> card S = 2}"
  then have sub: "S \<subseteq> {a, b, c, d}" and "card S = 2" by simp_all
  then obtain x y where S: "S = {x, y}" and "x \<noteq> y"
    by (auto simp: card_2_iff)
  with sub have "x \<in> {a, b, c, d}" "y \<in> {a, b, c, d}" by simp_all
  with \<open>x \<noteq> y\<close> show "S \<in> {{a, b}, {c, d}, {a, c}, {b, d}, {a, d}, {b, c}}"
    unfolding S by (auto simp: doubleton_eq_iff)
next
  fix S assume "S \<in> {{a, b}, {c, d}, {a, c}, {b, d}, {a, d}, {b, c}}"
  with assms show "S \<in> {S. S \<subseteq> {a, b, c, d} \<and> card S = 2}"
    by auto
qed

lemma round_robin_shape:
  "length (round_robin a b c d r1 r2) = 3"
  "\<forall>r \<in> set (round_robin a b c d r1 r2). length r = 2"
  "map pair_of (concat (round_robin a b c d r1 r2)) =
     [{a, b}, {c, d}, {a, c}, {b, d}, {a, d}, {b, c}]"
  by (simp_all add: round_robin_def pair_of_def)

lemma round_robin_pairs_distinct:
  assumes "distinct [a, b, c, d]"
  shows "distinct (map pair_of (concat (round_robin a b c d r1 r2)))"
  using assms by (auto simp: round_robin_shape doubleton_eq_iff)

lemma round_robin_matches_of:
  assumes "distinct [a, b, c, d]" and "p \<in> {a, b, c, d}"
  shows "length (matches_of p (round_robin a b c d r1 r2)) = 3"
  using assms by (auto simp: round_robin_def matches_of_def)


text \<open>
  Claim C3. For 4 distinct player ids and 2 referee ids, \<open>generate_schedule\<close> returns a
  schedule (it raises nothing) of exactly 3 rounds of exactly 2 matches each; the
  unordered player pairs of its 6 matches are pairwise different and are exactly the
  two-element subsets of the 4 players; every player takes part in exactly 3 matches.
\<close>

theorem generate_schedule_round_robin:
  assumes "distinct ps" and "length ps = 4" and "length rs = 2"
  shows "\<exists>sched s'.
           generate_schedule (TournamentScheduler ps rs) = (Inr sched, s') \<and>
           schedule s' = sched \<and>
           length sched = 3 \<and>
           (\<forall>r \<in> set sched. length r = 2) \<and>
           distinct (map pair_of (concat sched)) \<and>
           set (map pair_of (concat sched)) = {S. S \<subseteq> set ps \<and> card S = 2} \<and>
           (\<forall>p \<in> set ps. length (matches_of p sched) = 3)"
proof -
  obtain a b c d where sorted_ids: "sort ps = [a, b, c, d]"
    and dist: "distinct [a, b, c, d]" and set_ps: "set ps = {a, b, c, d}"
    by (rule sort_four [OF assms(2) assms(1)])
  let ?s = "TournamentScheduler ps rs"
  let ?sched = "round_robin a b c d (referee_ids ?s ! 0)
                  (referee_ids ?s ! (1 mod length (referee_ids ?s)))"
  have "player_ids ?s = [a, b, c, d]"
    by (simp add: TournamentScheduler_def sorted_ids)
  moreover have "length (referee_ids ?s) = 2"
    using assms(3) by (simp add: TournamentScheduler_def)
  then have "referee_ids ?s \<noteq> []" by auto
  ultimately have gen: "generate_schedule ?s = (Inr ?sched, ?s\<lparr>schedule := ?sched\<rparr>)"
    by (rule generate_schedule_four)
  have pairs: "set (map pair_of (concat ?sched)) = {S. S \<subseteq> set ps \<and> card S = 2}"
    unfolding set_ps two_subsets_of_four [OF dist] round_robin_shape by auto
  have each: "\<forall>p \<in> set ps. length (matches_of p ?sched) = 3"
    unfolding set_ps using round_robin_matches_of [OF dist] by blast
  from gen pairs each round_robin_shape(1,2) round_robin_pairs_distinct [OF dist]
  show ?thesis by (intro exI [of _ ?sched] exI [of _ "?s\<lparr>schedule := ?sched\<rparr>"]) simp
qed


theorem generate_schedule_round_robin_witness:
  "distinct [''P03'', ''P01'', ''P04'', ''P02''] \<and>
   length [''P03'', ''P01'', ''P04'', ''P02''] = 4 \<and>
   length [''REF02'', ''REF01''] = 2 \<and>
   (\<exists>sched s'.
      generate_schedule
        (TournamentScheduler [''P03'', ''P01'', ''P04'', ''P02''] [''REF02'', ''REF01'']) =
        (Inr sched, s') \<and>
      schedule s' = sched \<and>
      length sched = 3 \<and>
      (\<forall>r \<in> set sched. length r = 2) \<and>
      distinct (map pair_of (concat sched)) \<and>
      set (map pair_of (concat sched)) =
        {S. S \<subseteq> set [''P03'', ''P01'', ''P04'', ''P02''] \<and> card S = 2} \<and>
      (\<forall>p \<in> set [''P03'', ''P01'', ''P04'', ''P02'']. length (matches_of p sched) = 3))"
proof -
  have h1: "distinct [''P03'', ''P01'', ''P04'', ''P02'']" by simp
  have h2: "length [''P03'', ''P01'', ''P04'', ''P02''] = 4" by simp
  have h3: "length [''REF02'', ''REF01''] = 2" by simp
  from generate_schedule_round_robin [OF h1 h2 h3] h1 h2 h3 show ?thesis by blast
qed

text \<open>
  Claim C9. The schedule does not depend on the order of the two id lists: for any
  reordering of the player ids and of the referee ids, \<open>generate_schedule\<close> gives the same
  result (match ids, pairings per round, referees), since the constructor sorts both.
\<close>

theorem generate_schedule_order_independent:
  assumes "mset ps' = mset ps" and "mset rs' = mset rs"
  shows "generate_schedule (TournamentScheduler ps' rs') =
         generate_schedule (TournamentScheduler ps rs)"
proof -
  have "sort ps' = sort ps"
    using assms(1) by (intro properties_for_sort) simp_all
  moreover have "sort rs' = sort rs"
    using assms(2) by (intro properties_for_sort) simp_all
  ultimately show ?thesis
    by (simp add: TournamentScheduler_def)
qed

theorem generate_schedule_order_independent_witness:
  "mset [''P03'', ''P01'', ''P04'', ''P02''] = mset [''P01'', ''P02'', ''P03'', ''P04''] \<and>
   mset [''REF02'', ''REF01''] = mset [''REF01'', ''REF02''] \<and>
   generate_schedule
     (TournamentScheduler [''P03'', ''P01'', ''P04'', ''P02''] [''REF02'', ''REF01'']) =
   generate_schedule
     (TournamentScheduler [''P01'', ''P02'', ''P03'', ''P04''] [''REF01'', ''REF02''])"
proof -
  have h1: "mset [''P03'', ''P01'', ''P04'', ''P02''] = mset [''P01'', ''P02'', ''P03'', ''P04'']"
    by (simp add: add_mset_commute)
  have h2: "mset [''REF02'', ''REF01''] = mset [''REF01'', ''REF02'']"
    by (simp add: add_mset_commute)
  from generate_schedule_order_independent [OF h1 h2] h1 h2 show ?thesis by blast
qed

subsection \<open>Validation: counting the matches of each player\<close>










subsection \<open>Validation: duplicate pairings\<close>






subsection \<open>Validation: the verdict\<close>


lemma appearances_eq_matches:
  assumes "\<forall>m \<in> set (concat sched). player_A_id m \<noteq> player_B_id m"
  shows "appearances p sched = length (matches_of p sched)"
proof -
  have "length (filter (\<lambda>m. player_A_id m = p) ms) + length (filter (\<lambda>m. player_B_id m = p) ms) =
        length (filter (\<lambda>m. player_A_id m = p \<or> player_B_id m = p) ms)"
    if "\<forall>m \<in> set ms. player_A_id m \<noteq> player_B_id m" for ms :: "match list"
    using that by (induction ms) auto
  from this [OF assms] show ?thesis
    by (simp add: appearances_def matches_of_def)
qed

text \<open>
  Where a match names one player twice the two differ: the validation passes a schedule
  in which every player is named 3 times but takes part in 2 matches only.
\<close>

lemma validate_schedule_self_pairing:
  "validate_schedule self_pairing_scheduler = Inr True"
  "map (\<lambda>p. length (matches_of p (schedule self_pairing_scheduler)))
     (player_ids self_pairing_scheduler) = [2, 2, 2, 2]"
  by code_simp+






end
